theory Spec2Isabelle
  imports Complex_Main
begin

section \<open>The environment: network, clock and HTTP clients\<close>

text \<open>
  The scripts talk to a server through an HTTP client (axios in the Node scripts, curl in
  the shell scripts) and read the clock with \<^verbatim>\<open>Date.now()\<close>. Both are effects, so
  the model threads a \<open>world\<close> through every function: the list of URLs requested so
  far, in order, and the current time in milliseconds. What the server does is a parameter
  \<open>net\<close> of every function: given the world at the moment of the request and the URL,
  it says what came back on the wire and how long it took. Nothing is assumed about it.

  Payload that the scripts only copy into the report or print (response body, headers, the
  text of \<^verbatim>\<open>error.message\<close>, ISO timestamps, console lines) is not modelled.
\<close>

type_synonym url = string

datatype wire =
    Responded nat
  | NoResponse "string option"

record reply =
  outcome :: wire
  elapsed :: nat

record world =
  requests :: "url list"
  now :: nat

type_synonym network = "world \<Rightarrow> url \<Rightarrow> reply"

definition send :: "network \<Rightarrow> url \<Rightarrow> world \<Rightarrow> wire \<times> world" where
  "send net u w =
     (outcome (net w u),
      \<lparr>requests = requests w @ [u], now = now w + elapsed (net w u)\<rparr>)"

subsection \<open>axios\<close>

text \<open>
  The axios library is a dependency of the repository, not part of it. Its contract, as far
  as the scripts rely on it: \<^verbatim>\<open>axios.get\<close> resolves with the response when
  \<^verbatim>\<open>validateStatus(response.status)\<close> holds; it rejects with an error that carries
  the response (and the code \<^verbatim>\<open>ERR_BAD_REQUEST\<close> for 4xx, \<^verbatim>\<open>ERR_BAD_RESPONSE\<close>
  for 5xx, no code otherwise) when it does not; and it rejects with an error that carries no
  response and the transport's code, if any, when no response arrived. The default
  \<^verbatim>\<open>validateStatus\<close> accepts exactly the 2xx range. A rejection is the \<open>Inl\<close> value.
\<close>

record axios_error =
  code :: "string option"
  response :: "nat option"

definition default_validateStatus :: "nat \<Rightarrow> bool" where
  "default_validateStatus status = (200 \<le> status \<and> status < 300)"

definition settle :: "(nat \<Rightarrow> bool) \<Rightarrow> wire \<Rightarrow> axios_error + nat" where
  "settle validateStatus x =
     (case x of
        Responded status \<Rightarrow>
          if validateStatus status then Inr status
          else Inl \<lparr>code = (if 400 \<le> status \<and> status < 500 then Some ''ERR_BAD_REQUEST''
                            else if 500 \<le> status \<and> status < 600 then Some ''ERR_BAD_RESPONSE''
                            else None),
                    response = Some status\<rparr>
      | NoResponse c \<Rightarrow> Inl \<lparr>code = c, response = None\<rparr>)"

definition axios_get ::
  "network \<Rightarrow> (nat \<Rightarrow> bool) \<Rightarrow> url \<Rightarrow> world \<Rightarrow> (axios_error + nat) \<times> world" where
  "axios_get net validateStatus u w =
     (case send net u w of (x, w') \<Rightarrow> (settle validateStatus x, w'))"

subsection \<open>curl\<close>

text \<open>
  curl is an external program. \<^verbatim>\<open>-w "%{http_code}"\<close> prints the status of the response,
  and \<^verbatim>\<open>000\<close> when there was none; \<^verbatim>\<open>-f\<close> makes curl exit non-zero on a status of
  400 or more, as it does on every transport error.
\<close>

definition curl_http_code :: "wire \<Rightarrow> nat" where
  "curl_http_code x = (case x of Responded status \<Rightarrow> status | NoResponse c \<Rightarrow> 0)"

definition curl_f :: "wire \<Rightarrow> bool" where
  "curl_f x = (case x of Responded status \<Rightarrow> status < 400 | NoResponse c \<Rightarrow> False)"

section \<open>hosting-validation.js\<close>

text \<open>The Node aggregator: \<^verbatim>\<open>validateBackendService\<close>, \<^verbatim>\<open>validateMultipleEndpoints\<close>,
  \<^verbatim>\<open>comprehensiveHostValidation\<close> and \<^verbatim>\<open>hostingValidation\<close>. In the source tree its
  text follows the short shell script in \<^verbatim>\<open>src/validate-service.sh\<close>. An entry of the
  report is the endpoint's descriptor extended by what the probe gave; its \<open>status\<close> is
  a number or a string, as in the source.\<close>

record endpoint =
  path :: string
  name :: string

datatype status_field =
    Num nat
  | Str string

record endpoint_result = endpoint +
  status :: status_field
  responseTime :: nat
  success :: bool

record summary =
  total' :: int
  successful :: int
  failed :: int
  successRate :: int

record detailed =
  baseUrl :: url
  endpoints :: "endpoint_result list"
  summary :: summary

datatype error_message =
    Connection_refused
  | Connection_reset
  | Host_not_found
  | Request_timed_out
  | Server_error nat
  | Error_connecting

record basic_result =
  basic_success :: bool
  basic_status :: "nat option"
  basic_error :: "error_message option"
  basic_responseTime :: nat
  basic_url :: url

datatype overall_status = HEALTHY | DEGRADED | UNHEALTHY | FAILED

record report =
  url :: url
  basicConnectivity :: basic_result
  detailedValidation :: "detailed option"
  overallStatus :: overall_status

text \<open>\<^verbatim>\<open>Math.round\<close>: the nearest integer, a half going up. The quotient it is applied to
  is taken in exact arithmetic. With five endpoints the exact value is a multiple of 20, so
  the rounding error of double arithmetic, far below one half, cannot change the result.\<close>

definition Math_round :: "rat \<Rightarrow> int" where
  "Math_round x = \<lfloor>x + 1 / 2\<rfloor>"

text \<open>\<^verbatim>\<open>validateBackendService(url)\<close>: one GET that accepts every status below 500. The
  \<open>error_message\<close> is the branch of the source's if-chain that builds the message.\<close>

definition validateBackendService :: "network \<Rightarrow> url \<Rightarrow> world \<Rightarrow> basic_result \<times> world" where
  "validateBackendService net u w =
     (let startTime = now w in
      case axios_get net (\<lambda>status. status < 500) u w of
        (Inr st, w') \<Rightarrow>
          (\<lparr>basic_success = True, basic_status = Some st, basic_error = None,
            basic_responseTime = now w' - startTime, basic_url = u\<rparr>, w')
      | (Inl error, w') \<Rightarrow>
          (let errorMessage =
                 (if code error = Some ''ECONNREFUSED'' then Connection_refused
                  else if code error = Some ''ECONNRESET'' then Connection_reset
                  else if code error = Some ''ENOTFOUND'' then Host_not_found
                  else if code error = Some ''ETIMEDOUT'' then Request_timed_out
                  else (case response error of
                          Some st \<Rightarrow> Server_error st
                        | None \<Rightarrow> Error_connecting))
           in (\<lparr>basic_success = False, basic_status = response error,
                basic_error = Some errorMessage,
                basic_responseTime = now w' - startTime, basic_url = u\<rparr>, w')))"

text \<open>The five endpoints of \<^verbatim>\<open>validateMultipleEndpoints\<close>.\<close>

definition endpoint_list :: "endpoint list" where
  "endpoint_list =
     [\<lparr>path = ''/'', name = ''Home''\<rparr>,
      \<lparr>path = ''/health'', name = ''Health Check''\<rparr>,
      \<lparr>path = ''/api/status'', name = ''API Status''\<rparr>,
      \<lparr>path = ''/api/health'', name = ''API Health''\<rparr>,
      \<lparr>path = ''/status'', name = ''Status''\<rparr>]"

text \<open>The body of the \<^verbatim>\<open>for\<close> loop: one GET with the default \<^verbatim>\<open>validateStatus\<close>,
  the \<^verbatim>\<open>try\<close> branch on a resolved promise and the \<^verbatim>\<open>catch\<close> branch on a rejected
  one. Either way one entry comes back.\<close>

definition probe_endpoint ::
  "network \<Rightarrow> url \<Rightarrow> endpoint \<Rightarrow> world \<Rightarrow> endpoint_result \<times> world" where
  "probe_endpoint net base ep w =
     (let u = base @ path ep; startTime = now w in
      case axios_get net default_validateStatus u w of
        (Inr st, w') \<Rightarrow>
          (\<lparr>path = path ep, name = name ep, status = Num st,
            responseTime = now w' - startTime,
            success = (200 \<le> st \<and> st < 300)\<rparr>, w')
      | (Inl error, w') \<Rightarrow>
          (\<lparr>path = path ep, name = name ep,
            status = (case response error of
                        Some st \<Rightarrow> Num st
                      | None \<Rightarrow>
                          (case code error of
                             Some c \<Rightarrow> if c = [] then Str ''ERROR'' else Str c
                           | None \<Rightarrow> Str ''ERROR'')),
            responseTime = now w' - startTime,
            success = False\<rparr>, w'))"

text \<open>The loop itself, \<^verbatim>\<open>results.endpoints\<close> being the accumulator.\<close>

fun endpoint_loop ::
  "network \<Rightarrow> url \<Rightarrow> endpoint list \<Rightarrow> endpoint_result list \<Rightarrow> world
    \<Rightarrow> endpoint_result list \<times> world" where
  "endpoint_loop net base [] results w = (results, w)"
| "endpoint_loop net base (ep # rest) results w =
     (case probe_endpoint net base ep w of
        (entry, w') \<Rightarrow> endpoint_loop net base rest (results @ [entry]) w')"

definition validateMultipleEndpoints :: "network \<Rightarrow> url \<Rightarrow> world \<Rightarrow> detailed \<times> world" where
  "validateMultipleEndpoints net base w =
     (case endpoint_loop net base endpoint_list [] w of
        (results, w') \<Rightarrow>
          (let successfulEndpoints = int (length (filter success results));
               n = int (length endpoint_list)
           in (\<lparr>baseUrl = base, endpoints = results,
                summary = \<lparr>total' = n, successful = successfulEndpoints,
                           failed = n - successfulEndpoints,
                           successRate =
                             Math_round (of_int successfulEndpoints / of_int n * 100)\<rparr>\<rparr>,
               w')))"

definition comprehensiveHostValidation :: "network \<Rightarrow> url \<Rightarrow> world \<Rightarrow> report \<times> world" where
  "comprehensiveHostValidation net u w =
     (case validateBackendService net u w of
        (basicResult, w1) \<Rightarrow>
          if \<not> basic_success basicResult then
            (\<lparr>url = u, basicConnectivity = basicResult, detailedValidation = None,
              overallStatus = FAILED\<rparr>, w1)
          else
            (case validateMultipleEndpoints net u w1 of
               (detailedResult, w2) \<Rightarrow>
                 (\<lparr>url = u, basicConnectivity = basicResult,
                   detailedValidation = Some detailedResult,
                   overallStatus =
                     (if successRate (summary detailedResult) = 100 then HEALTHY
                      else if successRate (summary detailedResult) \<ge> 50 then DEGRADED
                      else UNHEALTHY)\<rparr>, w2)))"

definition hostingValidation :: "network \<Rightarrow> url \<Rightarrow> world \<Rightarrow> (report \<times> nat) \<times> world" where
  "hostingValidation net base w =
     (case comprehensiveHostValidation net base w of
        (result, w') \<Rightarrow>
          ((result, if overallStatus result = HEALTHY then 0 else 1), w'))"

text \<open>Run directly, the script exits with the \<^verbatim>\<open>exitCode\<close> of \<open>hostingValidation\<close>.\<close>

definition process_exit :: "network \<Rightarrow> url \<Rightarrow> world \<Rightarrow> nat" where
  "process_exit net targetUrl w = snd (fst (hostingValidation net targetUrl w))"

section \<open>validate-service.js\<close>

text \<open>\<^verbatim>\<open>validateService()\<close> with Node's \<^verbatim>\<open>http\<close> module: the response callback
  resolves with the 2xx test, the error and timeout handlers resolve with false.\<close>

definition validateService :: "network \<Rightarrow> world \<Rightarrow> bool \<times> world" where
  "validateService net w =
     (case send net ''http://localhost:5000/'' w of
        (Responded statusCode, w') \<Rightarrow> (200 \<le> statusCode \<and> statusCode < 300, w')
      | (NoResponse c, w') \<Rightarrow> (False, w'))"

section \<open>comprehensive-validation.sh\<close>

text \<open>The array of \<^verbatim>\<open>path|name\<close> pairs, and \<^verbatim>\<open>IFS='|' read -r endpoint name\<close>, which
  cuts a pair at its first bar.\<close>

definition endpoints_sh :: "string list" where
  "endpoints_sh =
     [''/|Home'', ''/health|Health Check'', ''/api/status|API Status'',
      ''/api/health|API Health'', ''/status|Status'', ''/api|API Root'']"

definition read_pair :: "string \<Rightarrow> string \<times> string" where
  "read_pair s =
     (takeWhile (\<lambda>c. c \<noteq> CHR ''|'') s, drop 1 (dropWhile (\<lambda>c. c \<noteq> CHR ''|'') s))"

text \<open>\<^verbatim>\<open>validate_single_endpoint\<close> returns 0 on a 2xx code and 1 on anything else.\<close>

definition validate_single_endpoint ::
  "network \<Rightarrow> url \<Rightarrow> string \<Rightarrow> string \<Rightarrow> world \<Rightarrow> nat \<times> world" where
  "validate_single_endpoint net URL ep nm w =
     (case send net (URL @ ep) w of
        (x, w') \<Rightarrow>
          (let http_code = curl_http_code x in
           if 200 \<le> http_code \<and> http_code < 300 then (0, w')
           else if 300 \<le> http_code \<and> http_code < 500 then (1, w')
           else (1, w')))"

fun count_loop :: "network \<Rightarrow> url \<Rightarrow> string list \<Rightarrow> int \<Rightarrow> world \<Rightarrow> int \<times> world" where
  "count_loop net URL [] success_count w = (success_count, w)"
| "count_loop net URL (endpoint_pair # rest) success_count w =
     (case read_pair endpoint_pair of
        (ep, nm) \<Rightarrow>
          (case validate_single_endpoint net URL ep nm w of
             (rc, w') \<Rightarrow>
               count_loop net URL rest
                 (if rc = 0 then success_count + 1 else success_count) w'))"

record sh_summary =
  total_count :: int
  success_count :: int
  failed_count :: int
  success_rate :: int
  overall_status :: overall_status

record sh_run =
  return_code :: nat
  printed :: "sh_summary option"

text \<open>\<^verbatim>\<open>run_comprehensive_validation\<close>: the \<^verbatim>\<open>curl -f\<close> check of the base URL, the loop,
  the integer arithmetic of \<^verbatim>\<open>$(( ))\<close> and the two \<^verbatim>\<open>if\<close> chains.\<close>

definition run_comprehensive_validation :: "network \<Rightarrow> url \<Rightarrow> world \<Rightarrow> sh_run \<times> world" where
  "run_comprehensive_validation net URL w =
     (case send net URL w of
        (x, w0) \<Rightarrow>
          if \<not> curl_f x then (\<lparr>return_code = 1, printed = None\<rparr>, w0)
          else
            (case count_loop net URL endpoints_sh 0 w0 of
               (sc, w1) \<Rightarrow>
                 (let tc = int (length endpoints_sh);
                      rate = sc * 100 div tc
                  in (\<lparr>return_code = (if rate = 100 then 0 else 1),
                       printed = Some \<lparr>total_count = tc, success_count = sc,
                                       failed_count = tc - sc, success_rate = rate,
                                       overall_status =
                                         (if rate = 100 then HEALTHY
                                          else if rate \<ge> 50 then DEGRADED
                                          else UNHEALTHY)\<rparr>\<rparr>, w1))))"

text \<open>The script exits with the function's return code (the diagnostics it runs first on a
  failure only print).\<close>

definition script_exit :: "network \<Rightarrow> url \<Rightarrow> world \<Rightarrow> nat" where
  "script_exit net URL w = return_code (fst (run_comprehensive_validation net URL w))"

section \<open>Vocabulary of the specification\<close>

text \<open>
  These definitions follow the words of the specification, not the code; the theorems below
  compare the code with them.

  \<open>seen net us w\<close> is what comes back on the wire when the URLs \<open>us\<close> are requested
  one after the other, starting in world \<open>w\<close>. \<open>in_2xx\<close> is "a status code was
  received and it lies in [200, 300)". \<open>round_half_up\<close> is rounding to the nearest
  integer, a half going up. \<open>exit_code_of\<close> is the exit-code mapping of the
  specification.
\<close>

fun seen :: "network \<Rightarrow> url list \<Rightarrow> world \<Rightarrow> wire list" where
  "seen net [] w = []"
| "seen net (u # us) w = (case send net u w of (x, w') \<Rightarrow> x # seen net us w')"

fun in_2xx :: "wire \<Rightarrow> bool" where
  "in_2xx (Responded s) = (200 \<le> s \<and> s < 300)"
| "in_2xx (NoResponse c) = False"

text \<open>\<open>recorded x\<close> is the wire outcome \<open>x\<close> as data: the status of the response when
  there was one, the error code of the transport otherwise (\<^verbatim>\<open>ERROR\<close> when it has
  none).\<close>

fun recorded :: "wire \<Rightarrow> status_field" where
  "recorded (Responded s) = Num s"
| "recorded (NoResponse None) = Str ''ERROR''"
| "recorded (NoResponse (Some c)) = (if c = [] then Str ''ERROR'' else Str c)"

definition round_half_up :: "rat \<Rightarrow> int" where
  "round_half_up x = (if x - of_int \<lfloor>x\<rfloor> < 1 / 2 then \<lfloor>x\<rfloor> else \<lfloor>x\<rfloor> + 1)"

fun exit_code_of :: "overall_status \<Rightarrow> nat" where
  "exit_code_of HEALTHY = 0"
| "exit_code_of DEGRADED = 1"
| "exit_code_of UNHEALTHY = 1"
| "exit_code_of FAILED = 1"

section \<open>Example networks\<close>

text \<open>\<open>first_ok k x\<close> answers the first \<open>k\<close> requests of a run with 200 and gives
  \<open>x\<close> on every later one, each after 7 ms; \<open>start\<close> is a world in which nothing
  was requested yet.\<close>

definition first_ok :: "nat \<Rightarrow> wire \<Rightarrow> network" where
  "first_ok k x =
     (\<lambda>w u. \<lparr>outcome = (if length (requests w) < k then Responded 200 else x), elapsed = 7\<rparr>)"

definition start :: world where
  "start = \<lparr>requests = [], now = 0\<rparr>"

section \<open>The loops, step by step\<close>

text \<open>Facts about one request, one pass through a loop body, and the loops as a whole. They
  hold for every network.\<close>

lemma send_simps:
  "fst (send net u w) = outcome (net w u)"
  "requests (snd (send net u w)) = requests w @ [u]"
  by (simp_all add: send_def)

lemma settle_default:
  "settle default_validateStatus x =
     (case x of
        Responded s \<Rightarrow> if 200 \<le> s \<and> s < 300 then Inr s
                       else Inl \<lparr>code = (if 400 \<le> s \<and> s < 500 then Some ''ERR_BAD_REQUEST''
                            else if 500 \<le> s \<and> s < 600 then Some ''ERR_BAD_RESPONSE''
                            else None), response = Some s\<rparr>
      | NoResponse c \<Rightarrow> Inl \<lparr>code = c, response = None\<rparr>)"
  by (simp add: settle_def default_validateStatus_def split: wire.splits)

lemma probe_endpoint_world:
  "snd (probe_endpoint net base ep w) = snd (send net (base @ path ep) w)"
  by (simp add: probe_endpoint_def axios_get_def Let_def split: prod.splits sum.splits)

lemma probe_endpoint_spec:
  "path (fst (probe_endpoint net base ep w)) = path ep"
  "name (fst (probe_endpoint net base ep w)) = name ep"
  by (simp_all add: probe_endpoint_def axios_get_def Let_def split: prod.splits sum.splits)

lemma probe_endpoint_success:
  "success (fst (probe_endpoint net base ep w)) = in_2xx (outcome (net w (base @ path ep)))"
  by (cases "outcome (net w (base @ path ep))")
     (simp_all add: probe_endpoint_def axios_get_def send_def settle_default Let_def)

lemma probe_endpoint_status:
  "status (fst (probe_endpoint net base ep w)) =
     (case outcome (net w (base @ path ep)) of
        Responded s \<Rightarrow> Num s
      | NoResponse c \<Rightarrow> (case c of Some k \<Rightarrow> if k = [] then Str ''ERROR'' else Str k | None \<Rightarrow> Str ''ERROR''))"
  by (cases "outcome (net w (base @ path ep))")
     (simp_all add: probe_endpoint_def axios_get_def send_def settle_default Let_def)

lemma endpoint_loop_acc:
  "endpoint_loop net base eps acc w =
     (acc @ fst (endpoint_loop net base eps [] w), snd (endpoint_loop net base eps [] w))"
proof (induction eps arbitrary: acc w)
  case Nil
  show ?case by simp
next
  case (Cons ep rest)
  obtain e w' where p: "probe_endpoint net base ep w = (e, w')"
    by (cases "probe_endpoint net base ep w")
  show ?case
    using Cons.IH [of "acc @ [e]" w'] Cons.IH [of "[e]" w'] by (simp add: p)
qed

lemma endpoint_loop_Cons:
  "endpoint_loop net base (ep # rest) [] w =
     (fst (probe_endpoint net base ep w)
        # fst (endpoint_loop net base rest [] (snd (probe_endpoint net base ep w))),
      snd (endpoint_loop net base rest [] (snd (probe_endpoint net base ep w))))"
proof -
  obtain e w' where p: "probe_endpoint net base ep w = (e, w')"
    by (cases "probe_endpoint net base ep w")
  show ?thesis
    using endpoint_loop_acc [of net base rest "[e]" w'] by (simp add: p)
qed

lemma endpoint_loop_length:
  "length (fst (endpoint_loop net base eps [] w)) = length eps"
  by (induction eps arbitrary: w) (simp_all add: endpoint_loop_Cons del: endpoint_loop.simps(2))

lemma endpoint_loop_paths:
  "map path (fst (endpoint_loop net base eps [] w)) = map path eps"
  by (induction eps arbitrary: w)
     (simp_all add: endpoint_loop_Cons probe_endpoint_spec del: endpoint_loop.simps(2))

lemma endpoint_loop_names:
  "map name (fst (endpoint_loop net base eps [] w)) = map name eps"
  by (induction eps arbitrary: w)
     (simp_all add: endpoint_loop_Cons probe_endpoint_spec del: endpoint_loop.simps(2))

lemma endpoint_loop_requests:
  "requests (snd (endpoint_loop net base eps [] w)) =
     requests w @ map (\<lambda>ep. base @ path ep) eps"
  by (induction eps arbitrary: w)
     (simp_all add: endpoint_loop_Cons probe_endpoint_world send_simps del: endpoint_loop.simps(2))

lemma seen_Cons:
  "seen net (u # us) w = outcome (net w u) # seen net us (snd (send net u w))"
  by (simp add: send_def)

lemma endpoint_loop_success:
  "map success (fst (endpoint_loop net base eps [] w)) =
     map in_2xx (seen net (map (\<lambda>ep. base @ path ep) eps) w)"
  by (induction eps arbitrary: w)
     (simp_all add: endpoint_loop_Cons probe_endpoint_world probe_endpoint_success seen_Cons
        del: endpoint_loop.simps(2) seen.simps(2))


lemma Math_round_of_int: "Math_round (of_int k) = k"
proof -
  have "\<lfloor>(of_int k :: rat) + 1 / 2\<rfloor> = k"
    by (rule floor_unique) simp_all
  then show ?thesis by (simp add: Math_round_def)
qed

lemma Math_round_half_up: "Math_round x = round_half_up x"
proof -
  let ?f = "\<lfloor>x\<rfloor>"
  have lo: "of_int ?f \<le> x" and hi: "x < of_int ?f + 1"
    using floor_correct [of x] by simp_all
  show ?thesis
  proof (cases "x - of_int ?f < 1 / 2")
    case True
    have "\<lfloor>x + 1 / 2\<rfloor> = ?f"
    proof (rule floor_unique)
      show "of_int ?f \<le> x + 1 / 2" using lo by linarith
      show "x + 1 / 2 < of_int ?f + 1" using True by linarith
    qed
    with True show ?thesis by (simp add: Math_round_def round_half_up_def)
  next
    case False
    have "\<lfloor>x + 1 / 2\<rfloor> = ?f + 1"
    proof (rule floor_unique)
      show "of_int (?f + 1) \<le> x + 1 / 2" using False by simp
      show "x + 1 / 2 < of_int (?f + 1) + 1" using hi by simp
    qed
    with False show ?thesis by (simp add: Math_round_def round_half_up_def)
  qed
qed

lemma length_endpoint_list: "length endpoint_list = 5"
  by (simp add: endpoint_list_def)

lemma vme_endpoints:
  "endpoints (fst (validateMultipleEndpoints net base w)) =
     fst (endpoint_loop net base endpoint_list [] w)"
  by (simp add: validateMultipleEndpoints_def Let_def split: prod.splits)

lemma vme_world:
  "snd (validateMultipleEndpoints net base w) =
     snd (endpoint_loop net base endpoint_list [] w)"
  by (simp add: validateMultipleEndpoints_def Let_def split: prod.splits)

lemma vme_summary:
  "summary (fst (validateMultipleEndpoints net base w)) =
     \<lparr>total' = 5,
      successful = int (length (filter success (fst (endpoint_loop net base endpoint_list [] w)))),
      failed = 5 - int (length (filter success (fst (endpoint_loop net base endpoint_list [] w)))),
      successRate = 20 * int (length (filter success (fst (endpoint_loop net base endpoint_list [] w))))\<rparr>"
proof -
  have r: "Math_round (20 * of_nat k) = 20 * int k" for k :: nat
    using Math_round_of_int [of "20 * int k"] by simp
  show ?thesis
    by (simp add: validateMultipleEndpoints_def Let_def length_endpoint_list r split: prod.splits)
qed

lemma vme_successful_bounds:
  "0 \<le> successful (summary (fst (validateMultipleEndpoints net base w)))"
  "successful (summary (fst (validateMultipleEndpoints net base w))) \<le> 5"
proof -
  have "length (filter success (fst (endpoint_loop net base endpoint_list [] w))) \<le> 5"
    using length_filter_le [of success "fst (endpoint_loop net base endpoint_list [] w)"]
    by (simp add: endpoint_loop_length length_endpoint_list)
  then show "successful (summary (fst (validateMultipleEndpoints net base w))) \<le> 5"
    by (simp add: vme_summary)
  show "0 \<le> successful (summary (fst (validateMultipleEndpoints net base w)))"
    by (simp add: vme_summary)
qed

lemma validateService_2xx:
  "fst (validateService net w) = in_2xx (outcome (net w ''http://localhost:5000/''))"
  by (cases "outcome (net w ''http://localhost:5000/'')")
     (simp_all add: validateService_def send_def)

lemma validate_single_endpoint_2xx:
  "(fst (validate_single_endpoint net URL ep nm w) = 0) = in_2xx (outcome (net w (URL @ ep)))"
  by (cases "outcome (net w (URL @ ep))")
     (simp_all add: validate_single_endpoint_def send_def curl_http_code_def Let_def)

lemma validate_single_endpoint_world:
  "snd (validate_single_endpoint net URL ep nm w) = snd (send net (URL @ ep) w)"
  by (simp add: validate_single_endpoint_def Let_def split: prod.splits)

lemma in_2xx_iff: "in_2xx x = (\<exists>s. x = Responded s \<and> 200 \<le> s \<and> s < 300)"
  by (cases x) simp_all

lemma vbs_world:
  "snd (validateBackendService net u w) = snd (send net u w)"
  by (simp add: validateBackendService_def axios_get_def Let_def split: prod.splits sum.splits)

lemma vbs_Responded:
  assumes "outcome (net w u) = Responded s"
  shows "fst (validateBackendService net u w) =
    (if s < 500 then
       \<lparr>basic_success = True, basic_status = Some s, basic_error = None,
        basic_responseTime = elapsed (net w u), basic_url = u\<rparr>
     else
       \<lparr>basic_success = False, basic_status = Some s, basic_error = Some (Server_error s),
        basic_responseTime = elapsed (net w u), basic_url = u\<rparr>)"
  using assms
  by (simp add: validateBackendService_def axios_get_def send_def settle_def Let_def)

lemma vbs_NoResponse:
  assumes "outcome (net w u) = NoResponse c"
  shows "fst (validateBackendService net u w) =
    \<lparr>basic_success = False, basic_status = None,
     basic_error = Some (if c = Some ''ECONNREFUSED'' then Connection_refused
                        else if c = Some ''ECONNRESET'' then Connection_reset
                        else if c = Some ''ENOTFOUND'' then Host_not_found
                        else if c = Some ''ETIMEDOUT'' then Request_timed_out
                        else Error_connecting),
     basic_responseTime = elapsed (net w u), basic_url = u\<rparr>"
  using assms
  by (simp add: validateBackendService_def axios_get_def send_def settle_def Let_def)

lemma vbs_success:
  "basic_success (fst (validateBackendService net u w)) =
     (\<exists>s. outcome (net w u) = Responded s \<and> s < 500)"
  by (cases "outcome (net w u)") (simp_all add: vbs_Responded vbs_NoResponse)

lemma chv_unfold:
  "comprehensiveHostValidation net u w =
     (if basic_success (fst (validateBackendService net u w)) then
        (\<lparr>url = u, basicConnectivity = fst (validateBackendService net u w),
          detailedValidation = Some (fst (validateMultipleEndpoints net u (snd (send net u w)))),
          overallStatus =
            (if successRate (summary (fst (validateMultipleEndpoints net u (snd (send net u w))))) = 100
             then HEALTHY
             else if successRate (summary (fst (validateMultipleEndpoints net u (snd (send net u w))))) \<ge> 50
             then DEGRADED else UNHEALTHY)\<rparr>,
         snd (validateMultipleEndpoints net u (snd (send net u w))))
      else
        (\<lparr>url = u, basicConnectivity = fst (validateBackendService net u w),
          detailedValidation = None, overallStatus = FAILED\<rparr>,
         snd (send net u w)))"
proof -
  obtain b w1 where b: "validateBackendService net u w = (b, w1)"
    by (cases "validateBackendService net u w")
  have w1: "w1 = snd (send net u w)"
    using vbs_world [of net u w] by (simp add: b)
  obtain d w2 where d: "validateMultipleEndpoints net u w1 = (d, w2)"
    by (cases "validateMultipleEndpoints net u w1")
  show ?thesis
    using d by (simp add: comprehensiveHostValidation_def b w1)
qed

lemma count_loop_acc:
  "count_loop net URL ps c w =
     (c + fst (count_loop net URL ps 0 w), snd (count_loop net URL ps 0 w))"
proof (induction ps arbitrary: c w)
  case Nil
  show ?case by simp
next
  case (Cons p rest)
  obtain ep nm where r: "read_pair p = (ep, nm)"
    by (cases "read_pair p")
  obtain rc w' where v: "validate_single_endpoint net URL ep nm w = (rc, w')"
    by (cases "validate_single_endpoint net URL ep nm w")
  show ?case
    using Cons.IH [of "c + 1" w'] Cons.IH [of c w'] Cons.IH [of 1 w']
    by (simp add: r v)
qed

lemma count_loop_Cons:
  "count_loop net URL (p # rest) 0 w =
     ((if in_2xx (outcome (net w (URL @ fst (read_pair p)))) then 1 else 0)
        + fst (count_loop net URL rest 0 (snd (send net (URL @ fst (read_pair p)) w))),
      snd (count_loop net URL rest 0 (snd (send net (URL @ fst (read_pair p)) w))))"
proof -
  obtain ep nm where r: "read_pair p = (ep, nm)"
    by (cases "read_pair p")
  obtain rc w' where v: "validate_single_endpoint net URL ep nm w = (rc, w')"
    by (cases "validate_single_endpoint net URL ep nm w")
  have rc: "(rc = 0) = in_2xx (outcome (net w (URL @ ep)))"
    using validate_single_endpoint_2xx [of net URL ep nm w] by (simp add: v)
  have w': "w' = snd (send net (URL @ ep) w)"
    using validate_single_endpoint_world [of net URL ep nm w] by (simp add: v)
  show ?thesis
    using count_loop_acc [of net URL rest 1 w'] count_loop_acc [of net URL rest 0 w']
    by (simp add: r v rc w')
qed

lemma count_loop_bounds:
  "0 \<le> fst (count_loop net URL ps 0 w) \<and> fst (count_loop net URL ps 0 w) \<le> int (length ps)"
proof (induction ps arbitrary: w)
  case Nil
  show ?case by simp
next
  case (Cons p rest)
  show ?case
    using Cons.IH [of "snd (send net (URL @ fst (read_pair p)) w)"]
    by (simp add: count_loop_Cons del: count_loop.simps(2))
qed

lemma count_loop_requests:
  "requests (snd (count_loop net URL ps 0 w)) =
     requests w @ map (\<lambda>p. URL @ fst (read_pair p)) ps"
  by (induction ps arbitrary: w)
     (simp_all add: count_loop_Cons send_simps del: count_loop.simps(2))

lemma count_loop_counts:
  "fst (count_loop net URL ps 0 w) =
     int (length (filter in_2xx (seen net (map (\<lambda>p. URL @ fst (read_pair p)) ps) w)))"
  by (induction ps arbitrary: w)
     (simp_all add: count_loop_Cons seen_Cons del: count_loop.simps(2) seen.simps(2))

lemma length_endpoints_sh: "length endpoints_sh = 6"
  by (simp add: endpoints_sh_def)

lemma rcv_unfold:
  "run_comprehensive_validation net URL w =
     (if curl_f (outcome (net w URL)) then
        (\<lparr>return_code =
            (if fst (count_loop net URL endpoints_sh 0 (snd (send net URL w))) * 100 div 6 = 100
             then 0 else 1),
          printed = Some
            \<lparr>total_count = 6,
             success_count = fst (count_loop net URL endpoints_sh 0 (snd (send net URL w))),
             failed_count = 6 - fst (count_loop net URL endpoints_sh 0 (snd (send net URL w))),
             success_rate = fst (count_loop net URL endpoints_sh 0 (snd (send net URL w))) * 100 div 6,
             overall_status =
               (if fst (count_loop net URL endpoints_sh 0 (snd (send net URL w))) * 100 div 6 = 100
                then HEALTHY
                else if fst (count_loop net URL endpoints_sh 0 (snd (send net URL w))) * 100 div 6 \<ge> 50
                then DEGRADED else UNHEALTHY)\<rparr>\<rparr>,
         snd (count_loop net URL endpoints_sh 0 (snd (send net URL w))))
      else (\<lparr>return_code = 1, printed = None\<rparr>, snd (send net URL w)))"
proof -
  define w0 where "w0 = snd (send net URL w)"
  have s: "send net URL w = (outcome (net w URL), w0)"
    by (simp add: w0_def send_def)
  obtain sc w1 where c: "count_loop net URL endpoints_sh 0 w0 = (sc, w1)"
    by (cases "count_loop net URL endpoints_sh 0 w0")
  show ?thesis
    by (simp add: run_comprehensive_validation_def length_endpoints_sh Let_def s c)
qed

section \<open>Classification of one probe\<close>

text \<open>
  Claim C3. An endpoint counts as a success exactly when a response came back and its status
  lies in [200, 300). This holds for the entry the loop body of
  \<^verbatim>\<open>validateMultipleEndpoints\<close> records, for every entry of the finished report, for
  \<^verbatim>\<open>validateService\<close> of validate-service.js, and for the return code of the shell's
  \<^verbatim>\<open>validate_single_endpoint\<close>. So every 1xx, 3xx, 4xx and 5xx response and every
  transport error is a failure; \<open>success\<close> is a boolean, there is no third value.
\<close>

theorem success_iff_status_in_2xx:
  "success (fst (probe_endpoint net base ep w)) =
     (\<exists>s. outcome (net w (base @ path ep)) = Responded s \<and> 200 \<le> s \<and> s < 300)
   \<and> map success (endpoints (fst (validateMultipleEndpoints net base w))) =
       map in_2xx (seen net (map (\<lambda>ep. base @ path ep) endpoint_list) w)
   \<and> fst (validateService net w) =
       (\<exists>s. outcome (net w ''http://localhost:5000/'') = Responded s \<and> 200 \<le> s \<and> s < 300)
   \<and> (fst (validate_single_endpoint net URL p nm w) = 0) =
       (\<exists>s. outcome (net w (URL @ p)) = Responded s \<and> 200 \<le> s \<and> s < 300)"
  by (simp add: probe_endpoint_success vme_endpoints endpoint_loop_success
      validateService_2xx validate_single_endpoint_2xx in_2xx_iff)

text \<open>A 404 is a failure although a response was received; with three endpoints answering
  200 and two refusing the connection the report reads success, success, success, failure,
  failure.\<close>

theorem success_iff_status_in_2xx_witness:
  "\<not> success (fst (probe_endpoint (first_ok 0 (Responded 404)) ''http://h''
        \<lparr>path = ''/health'', name = ''Health Check''\<rparr> start))
   \<and> map success (endpoints (fst (validateMultipleEndpoints
         (first_ok 3 (NoResponse (Some ''ECONNREFUSED''))) ''http://h'' start))) =
       [True, True, True, False, False]"
  using success_iff_status_in_2xx [of "first_ok 0 (Responded 404)" "''http://h''"
      "\<lparr>path = ''/health'', name = ''Health Check''\<rparr>" start]
    success_iff_status_in_2xx [of "first_ok 3 (NoResponse (Some ''ECONNREFUSED''))" "''http://h''"
      "\<lparr>path = ''/health'', name = ''Health Check''\<rparr>" start]
  by (simp add: endpoint_list_def send_def first_ok_def start_def)

lemma vme_rate_values:
  "successRate (summary (fst (validateMultipleEndpoints net base w))) =
     20 * successful (summary (fst (validateMultipleEndpoints net base w)))"
  by (simp add: vme_summary)

section \<open>Success rate, overall status and exit code\<close>

text \<open>
  Claim C1. When the check of the base URL succeeds, the overall status is a step function
  of the success rate with two thresholds: HEALTHY exactly at 100, DEGRADED exactly from 50
  (included) up to 100 (excluded), UNHEALTHY exactly below 50. This holds for the report of
  \<^verbatim>\<open>comprehensiveHostValidation\<close> and for the summary the shell's
  \<^verbatim>\<open>run_comprehensive_validation\<close> prints.
\<close>

theorem overall_status_bands:
  "(basic_success (basicConnectivity (fst (comprehensiveHostValidation net u w))) \<longrightarrow>
      (\<exists>d. detailedValidation (fst (comprehensiveHostValidation net u w)) = Some d
         \<and> (overallStatus (fst (comprehensiveHostValidation net u w)) = HEALTHY) =
             (successRate (summary d) = 100)
         \<and> (overallStatus (fst (comprehensiveHostValidation net u w)) = DEGRADED) =
             (50 \<le> successRate (summary d) \<and> successRate (summary d) < 100)
         \<and> (overallStatus (fst (comprehensiveHostValidation net u w)) = UNHEALTHY) =
             (successRate (summary d) < 50)))
   \<and> (curl_f (outcome (net w URL)) \<longrightarrow>
      (\<exists>p. printed (fst (run_comprehensive_validation net URL w)) = Some p
         \<and> (overall_status p = HEALTHY) = (success_rate p = 100)
         \<and> (overall_status p = DEGRADED) = (50 \<le> success_rate p \<and> success_rate p < 100)
         \<and> (overall_status p = UNHEALTHY) = (success_rate p < 50)))"
proof (intro conjI impI)
  assume "basic_success (basicConnectivity (fst (comprehensiveHostValidation net u w)))"
  then have ok: "basic_success (fst (validateBackendService net u w))"
    by (simp add: chv_unfold split: if_splits)
  let ?d = "fst (validateMultipleEndpoints net u (snd (send net u w)))"
  have le: "successRate (summary ?d) \<le> 100"
    using vme_successful_bounds(2) [of net u "snd (send net u w)"]
    by (simp add: vme_rate_values)
  show "\<exists>d. detailedValidation (fst (comprehensiveHostValidation net u w)) = Some d
         \<and> (overallStatus (fst (comprehensiveHostValidation net u w)) = HEALTHY) =
             (successRate (summary d) = 100)
         \<and> (overallStatus (fst (comprehensiveHostValidation net u w)) = DEGRADED) =
             (50 \<le> successRate (summary d) \<and> successRate (summary d) < 100)
         \<and> (overallStatus (fst (comprehensiveHostValidation net u w)) = UNHEALTHY) =
             (successRate (summary d) < 50)"
    using le by (intro exI [of _ ?d]) (auto simp: chv_unfold ok)
next
  assume ok: "curl_f (outcome (net w URL))"
  let ?sc = "fst (count_loop net URL endpoints_sh 0 (snd (send net URL w)))"
  have "?sc \<le> 6"
    using count_loop_bounds [of net URL endpoints_sh "snd (send net URL w)"]
    by (simp add: length_endpoints_sh)
  then have le: "?sc * 100 div 6 \<le> 100"
    by linarith
  show "\<exists>p. printed (fst (run_comprehensive_validation net URL w)) = Some p
         \<and> (overall_status p = HEALTHY) = (success_rate p = 100)
         \<and> (overall_status p = DEGRADED) = (50 \<le> success_rate p \<and> success_rate p < 100)
         \<and> (overall_status p = UNHEALTHY) = (success_rate p < 50)"
    using le by (auto simp: rcv_unfold ok)
qed

text \<open>A server that answers the first four requests and then refuses connections: three of
  five endpoints succeed in the Node run (60, DEGRADED), three of six in the shell run
  (50, still DEGRADED).\<close>

theorem overall_status_bands_witness:
  "basic_success (basicConnectivity (fst (comprehensiveHostValidation
      (first_ok 4 (NoResponse (Some ''ECONNREFUSED''))) ''http://h'' start)))
   \<and> curl_f (outcome (first_ok 4 (NoResponse (Some ''ECONNREFUSED'')) start ''http://h''))
   \<and> (\<exists>d. detailedValidation (fst (comprehensiveHostValidation
           (first_ok 4 (NoResponse (Some ''ECONNREFUSED''))) ''http://h'' start)) = Some d
         \<and> successRate (summary d) = 60)
   \<and> overallStatus (fst (comprehensiveHostValidation
      (first_ok 4 (NoResponse (Some ''ECONNREFUSED''))) ''http://h'' start)) = DEGRADED
   \<and> (\<exists>p. printed (fst (run_comprehensive_validation
           (first_ok 4 (NoResponse (Some ''ECONNREFUSED''))) ''http://h'' start)) = Some p
         \<and> success_rate p = 50 \<and> overall_status p = DEGRADED)"
proof -
  let ?net = "first_ok 4 (NoResponse (Some ''ECONNREFUSED''))"
  have a: "basic_success (basicConnectivity (fst (comprehensiveHostValidation
      ?net ''http://h'' start)))"
    by code_simp
  have b: "curl_f (outcome (?net start ''http://h''))"
    by code_simp
  have r: "successRate (summary (the (detailedValidation (fst (comprehensiveHostValidation
      ?net ''http://h'' start))))) = 60"
    by code_simp
  have s: "success_rate (the (printed (fst (run_comprehensive_validation
      ?net ''http://h'' start)))) = 50"
    by code_simp
  from overall_status_bands [of ?net "''http://h''" start "''http://h''"] a b
  obtain d p where
    d: "detailedValidation (fst (comprehensiveHostValidation ?net ''http://h'' start)) = Some d"
      "(overallStatus (fst (comprehensiveHostValidation ?net ''http://h'' start)) = DEGRADED) =
         (50 \<le> successRate (summary d) \<and> successRate (summary d) < 100)"
    and p: "printed (fst (run_comprehensive_validation ?net ''http://h'' start)) = Some p"
      "(overall_status p = DEGRADED) = (50 \<le> success_rate p \<and> success_rate p < 100)"
    by blast
  have rd: "successRate (summary d) = 60" using r d(1) by simp
  have sp: "success_rate p = 50" using s p(1) by simp
  show ?thesis
    using a b d p rd sp by simp
qed

lemma floor_rate_sh: "\<lfloor>(of_int sc / of_int 6 * 100 :: rat)\<rfloor> = sc * 100 div 6"
proof -
  have "(of_int sc / of_int 6 * 100 :: rat) = of_int (sc * 100) / of_int 6"
    by simp
  then show ?thesis
    by (simp only: floor_divide_of_int_eq)
qed

text \<open>
  Claim C2, as the code has it. The Node aggregator reports
  \<^verbatim>\<open>Math.round(successful / total * 100)\<close>, which is the quotient rounded to the
  nearest integer with a half going up. The shell aggregator computes
  \<^verbatim>\<open>$((success_count * 100 / total_count))\<close> in integer arithmetic, which is the quotient
  rounded down. In both, the total is at least 1.
\<close>

theorem success_rate_rounding:
  "1 \<le> total' (summary (fst (validateMultipleEndpoints net base w)))
   \<and> successRate (summary (fst (validateMultipleEndpoints net base w))) =
       round_half_up
         (of_int (successful (summary (fst (validateMultipleEndpoints net base w))))
            / of_int (total' (summary (fst (validateMultipleEndpoints net base w)))) * 100)
   \<and> (curl_f (outcome (net w URL)) \<longrightarrow>
        (\<exists>p. printed (fst (run_comprehensive_validation net URL w)) = Some p
           \<and> 1 \<le> total_count p
           \<and> success_rate p =
               \<lfloor>(of_int (success_count p) / of_int (total_count p) * 100 :: rat)\<rfloor>))"
proof (intro conjI impI)
  show "1 \<le> total' (summary (fst (validateMultipleEndpoints net base w)))"
    by (simp add: vme_summary)
  let ?s = "length (filter success (fst (endpoint_loop net base endpoint_list [] w)))"
  have "Math_round (of_int (int ?s) / of_int 5 * 100) = 20 * int ?s"
    using Math_round_of_int [of "20 * int ?s"] by simp
  then show "successRate (summary (fst (validateMultipleEndpoints net base w))) =
       round_half_up
         (of_int (successful (summary (fst (validateMultipleEndpoints net base w))))
            / of_int (total' (summary (fst (validateMultipleEndpoints net base w)))) * 100)"
    by (simp add: vme_summary flip: Math_round_half_up)
next
  assume ok: "curl_f (outcome (net w URL))"
  show "\<exists>p. printed (fst (run_comprehensive_validation net URL w)) = Some p
           \<and> 1 \<le> total_count p
           \<and> success_rate p =
               \<lfloor>(of_int (success_count p) / of_int (total_count p) * 100 :: rat)\<rfloor>"
    using floor_rate_sh [of "fst (count_loop net URL endpoints_sh 0 (snd (send net URL w)))"]
    by (simp add: rcv_unfold ok)
qed

text \<open>One endpoint of six answering: the shell prints 16.\<close>

theorem success_rate_rounding_witness:
  "curl_f (outcome (first_ok 2 (NoResponse (Some ''ECONNREFUSED'')) start ''http://h''))
   \<and> (\<exists>p. printed (fst (run_comprehensive_validation
             (first_ok 2 (NoResponse (Some ''ECONNREFUSED''))) ''http://h'' start)) = Some p
          \<and> success_count p = 1 \<and> total_count p = 6
          \<and> success_rate p = \<lfloor>(1 / 6 * 100 :: rat)\<rfloor>)"
proof -
  let ?net = "first_ok 2 (NoResponse (Some ''ECONNREFUSED''))"
  have b: "curl_f (outcome (?net start ''http://h''))"
    by code_simp
  have c: "success_count (the (printed (fst (run_comprehensive_validation
      ?net ''http://h'' start)))) = 1"
    by code_simp
  have t: "total_count (the (printed (fst (run_comprehensive_validation
      ?net ''http://h'' start)))) = 6"
    by code_simp
  from success_rate_rounding [of ?net "''http://h''" start "''http://h''"] b
  obtain p where
    p: "printed (fst (run_comprehensive_validation ?net ''http://h'' start)) = Some p"
      "success_rate p = \<lfloor>(of_int (success_count p) / of_int (total_count p) * 100 :: rat)\<rfloor>"
    by blast
  have "success_count p = 1" "total_count p = 6"
    using c t p(1) by simp_all
  with p b show ?thesis by simp
qed

text \<open>The claim as written fails for the shell aggregator: with one endpoint of six
  answering, rounding gives 17 and the script prints 16.\<close>

theorem success_rate_rounding_counterexample:
  "printed (fst (run_comprehensive_validation
      (first_ok 2 (NoResponse (Some ''ECONNREFUSED''))) ''http://h'' start)) =
     Some \<lparr>total_count = 6, success_count = 1, failed_count = 5, success_rate = 16,
           overall_status = UNHEALTHY\<rparr>
   \<and> round_half_up (1 / 6 * 100) = 17"
  by code_simp

lemma length_filter_not:
  "int (length (filter (\<lambda>e. \<not> P e) xs)) = int (length xs) - int (length (filter P xs))"
  using sum_length_filter_compl [of P xs] by simp

text \<open>
  Claim C7. In every report the successful and the failed endpoints add up to the total,
  and the total is the number of endpoints in the list. For the Node aggregator the counts
  are those of the entries of the report: \<open>successful\<close> entries have \<open>success\<close> set,
  \<open>failed\<close> ones do not. A report of \<^verbatim>\<open>comprehensiveHostValidation\<close> either has no
  detailed section or carries exactly such a summary. The summary the shell script prints
  obeys the same equation, with counts that are not negative.
\<close>

theorem successful_plus_failed_is_total:
  "successful (summary (fst (validateMultipleEndpoints net base w)))
     + failed (summary (fst (validateMultipleEndpoints net base w)))
     = total' (summary (fst (validateMultipleEndpoints net base w)))
   \<and> total' (summary (fst (validateMultipleEndpoints net base w))) = int (length endpoint_list)
   \<and> total' (summary (fst (validateMultipleEndpoints net base w))) =
       int (length (endpoints (fst (validateMultipleEndpoints net base w))))
   \<and> successful (summary (fst (validateMultipleEndpoints net base w))) =
       int (length (filter success (endpoints (fst (validateMultipleEndpoints net base w)))))
   \<and> failed (summary (fst (validateMultipleEndpoints net base w))) =
       int (length (filter (\<lambda>e. \<not> success e)
         (endpoints (fst (validateMultipleEndpoints net base w)))))
   \<and> (detailedValidation (fst (comprehensiveHostValidation net base w)) = None
      \<or> detailedValidation (fst (comprehensiveHostValidation net base w)) =
          Some (fst (validateMultipleEndpoints net base (snd (send net base w)))))
   \<and> (printed (fst (run_comprehensive_validation net URL w)) = None
      \<or> (\<exists>p. printed (fst (run_comprehensive_validation net URL w)) = Some p
            \<and> success_count p + failed_count p = total_count p
            \<and> total_count p = int (length endpoints_sh)
            \<and> 0 \<le> success_count p \<and> 0 \<le> failed_count p))"
proof -
  have sh: "0 \<le> fst (count_loop net URL endpoints_sh 0 (snd (send net URL w)))
      \<and> fst (count_loop net URL endpoints_sh 0 (snd (send net URL w))) \<le> 6"
    using count_loop_bounds [of net URL endpoints_sh "snd (send net URL w)"]
    by (simp add: length_endpoints_sh)
  show ?thesis
    using sh
    by (simp add: vme_summary vme_endpoints endpoint_loop_length length_endpoint_list
        length_filter_not chv_unfold rcv_unfold length_endpoints_sh)
qed

text \<open>Three of five, and three of six.\<close>

theorem successful_plus_failed_is_total_witness:
  "successful (summary (fst (validateMultipleEndpoints
      (first_ok 3 (NoResponse None)) ''http://h'' start))) = 3
   \<and> failed (summary (fst (validateMultipleEndpoints
      (first_ok 3 (NoResponse None)) ''http://h'' start))) = 2
   \<and> total' (summary (fst (validateMultipleEndpoints
      (first_ok 3 (NoResponse None)) ''http://h'' start))) = 5"
proof -
  have s: "successful (summary (fst (validateMultipleEndpoints
      (first_ok 3 (NoResponse None)) ''http://h'' start))) = 3"
    by code_simp
  from successful_plus_failed_is_total [of "first_ok 3 (NoResponse None)" "''http://h''" start
      "''http://h''"] s
  show ?thesis
    by (simp add: length_endpoint_list)
qed

text \<open>
  Claim C4. The exit code is a function of the overall status alone: 0 for HEALTHY, 1 for
  DEGRADED, UNHEALTHY and FAILED. The \<^verbatim>\<open>exitCode\<close> of \<^verbatim>\<open>hostingValidation\<close> and the
  code the Node process exits with are that function of the report's status. The shell
  script, which has no report when the base URL fails (the case that the Node script calls
  FAILED), exits with that function of the status it printed, and with 1 in that case.
\<close>

theorem exit_code_from_overall_status:
  "process_exit net u w = exit_code_of (overallStatus (fst (comprehensiveHostValidation net u w)))
   \<and> snd (fst (hostingValidation net u w)) =
       exit_code_of (overallStatus (fst (fst (hostingValidation net u w))))
   \<and> (process_exit net u w = 0) =
       (overallStatus (fst (comprehensiveHostValidation net u w)) = HEALTHY)
   \<and> script_exit net URL w =
       exit_code_of (case printed (fst (run_comprehensive_validation net URL w)) of
                       None \<Rightarrow> FAILED
                     | Some p \<Rightarrow> overall_status p)
   \<and> (script_exit net URL w = 0) =
       (\<exists>p. printed (fst (run_comprehensive_validation net URL w)) = Some p
          \<and> overall_status p = HEALTHY)"
proof -
  have e: "(if s = HEALTHY then 0 else 1) = exit_code_of s" for s
    by (cases s) simp_all
  have h: "hostingValidation net u w =
      ((fst (comprehensiveHostValidation net u w),
        exit_code_of (overallStatus (fst (comprehensiveHostValidation net u w)))),
       snd (comprehensiveHostValidation net u w))"
    by (simp add: hostingValidation_def e split: prod.splits)
  have z: "(exit_code_of s = 0) = (s = HEALTHY)" for s
    by (cases s) simp_all
  show ?thesis
    by (simp add: process_exit_def script_exit_def h z rcv_unfold)
qed

text \<open>All endpoints answering: both exit with 0. Connection refused on the base URL: both
  exit with 1.\<close>

theorem exit_code_from_overall_status_witness:
  "process_exit (first_ok 7 (NoResponse None)) ''http://h'' start = 0
   \<and> script_exit (first_ok 7 (NoResponse None)) ''http://h'' start = 0
   \<and> process_exit (first_ok 0 (NoResponse (Some ''ECONNREFUSED''))) ''http://h'' start = 1
   \<and> script_exit (first_ok 0 (NoResponse (Some ''ECONNREFUSED''))) ''http://h'' start = 1"
proof -
  have a: "overallStatus (fst (comprehensiveHostValidation
      (first_ok 7 (NoResponse None)) ''http://h'' start)) = HEALTHY"
    by code_simp
  have b: "overall_status (the (printed (fst (run_comprehensive_validation
      (first_ok 7 (NoResponse None)) ''http://h'' start)))) = HEALTHY
      \<and> printed (fst (run_comprehensive_validation
      (first_ok 7 (NoResponse None)) ''http://h'' start)) \<noteq> None"
    by code_simp
  have c: "overallStatus (fst (comprehensiveHostValidation
      (first_ok 0 (NoResponse (Some ''ECONNREFUSED''))) ''http://h'' start)) = FAILED"
    by code_simp
  have d: "printed (fst (run_comprehensive_validation
      (first_ok 0 (NoResponse (Some ''ECONNREFUSED''))) ''http://h'' start)) = None"
    by code_simp
  from exit_code_from_overall_status [of "first_ok 7 (NoResponse None)" "''http://h''" start
      "''http://h''"]
    exit_code_from_overall_status [of "first_ok 0 (NoResponse (Some ''ECONNREFUSED''))"
      "''http://h''" start "''http://h''"] a b c d
  show ?thesis
    by auto
qed

text \<open>
  Claim C5. When the check of the base URL fails, \<^verbatim>\<open>comprehensiveHostValidation\<close>
  returns at once: the report has the status FAILED, no detailed section, the URL and the
  result of the basic check; the only request of the whole run is the one to the base URL,
  so no endpoint was probed; and the process exits with 1.
\<close>

theorem failed_precheck_skips_endpoints:
  assumes "\<not> basic_success (fst (validateBackendService net u w))"
  shows "fst (comprehensiveHostValidation net u w) =
           \<lparr>url = u, basicConnectivity = fst (validateBackendService net u w),
            detailedValidation = None, overallStatus = FAILED\<rparr>
         \<and> requests (snd (comprehensiveHostValidation net u w)) = requests w @ [u]
         \<and> process_exit net u w = 1"
  using assms
  by (simp add: chv_unfold send_simps vbs_world process_exit_def hostingValidation_def
      split: prod.splits)

text \<open>Connection refused on the base URL.\<close>

theorem failed_precheck_skips_endpoints_witness:
  "\<not> basic_success (fst (validateBackendService
        (first_ok 0 (NoResponse (Some ''ECONNREFUSED''))) ''http://h'' start))
   \<and> overallStatus (fst (comprehensiveHostValidation
        (first_ok 0 (NoResponse (Some ''ECONNREFUSED''))) ''http://h'' start)) = FAILED
   \<and> detailedValidation (fst (comprehensiveHostValidation
        (first_ok 0 (NoResponse (Some ''ECONNREFUSED''))) ''http://h'' start)) = None
   \<and> requests (snd (comprehensiveHostValidation
        (first_ok 0 (NoResponse (Some ''ECONNREFUSED''))) ''http://h'' start)) = [''http://h'']
   \<and> process_exit (first_ok 0 (NoResponse (Some ''ECONNREFUSED''))) ''http://h'' start = 1"
proof -
  have a: "\<not> basic_success (fst (validateBackendService
        (first_ok 0 (NoResponse (Some ''ECONNREFUSED''))) ''http://h'' start))"
    by code_simp
  have r: "requests start = []"
    by (simp add: start_def)
  from failed_precheck_skips_endpoints [OF a] a r
  show ?thesis
    by simp
qed

lemma chv_requests_ok:
  assumes "basic_success (fst (validateBackendService net u w))"
  shows "requests (snd (comprehensiveHostValidation net u w)) =
    requests w @ u # map (\<lambda>ep. u @ path ep) endpoint_list"
  using assms
  by (simp add: chv_unfold vme_world endpoint_loop_requests send_simps)

section \<open>The check of the base URL\<close>

text \<open>
  Claim C6. The basic check accepts every response with a status below 500. So the status
  FAILED arises exactly when the request to the base URL ends in a transport error or in a
  response of 500 or more; a 404 from the base URL does not give FAILED. Whenever the status
  is not FAILED the detailed validation ran: the report has a detailed section and each of
  the five endpoints was requested after the base URL.
\<close>

theorem failed_only_on_transport_error_or_5xx:
  "basic_success (fst (validateBackendService net u w)) =
     (\<exists>s. outcome (net w u) = Responded s \<and> s < 500)
   \<and> (overallStatus (fst (comprehensiveHostValidation net u w)) = FAILED) =
       ((\<exists>c. outcome (net w u) = NoResponse c)
        \<or> (\<exists>s. outcome (net w u) = Responded s \<and> 500 \<le> s))
   \<and> (detailedValidation (fst (comprehensiveHostValidation net u w)) = None) =
       (overallStatus (fst (comprehensiveHostValidation net u w)) = FAILED)
   \<and> requests (snd (comprehensiveHostValidation net u w)) =
       (if overallStatus (fst (comprehensiveHostValidation net u w)) = FAILED
        then requests w @ [u]
        else requests w @ u # map (\<lambda>ep. u @ path ep) endpoint_list)"
proof -
  have f: "(overallStatus (fst (comprehensiveHostValidation net u w)) = FAILED) =
      (\<not> basic_success (fst (validateBackendService net u w)))"
    by (simp add: chv_unfold)
  have n: "(detailedValidation (fst (comprehensiveHostValidation net u w)) = None) =
      (\<not> basic_success (fst (validateBackendService net u w)))"
    by (simp add: chv_unfold)
  have o: "(\<not> basic_success (fst (validateBackendService net u w))) =
      ((\<exists>c. outcome (net w u) = NoResponse c)
        \<or> (\<exists>s. outcome (net w u) = Responded s \<and> 500 \<le> s))"
    by (cases "outcome (net w u)") (auto simp: vbs_success)
  have r: "requests (snd (comprehensiveHostValidation net u w)) =
      (if \<not> basic_success (fst (validateBackendService net u w))
        then requests w @ [u]
        else requests w @ u # map (\<lambda>ep. u @ path ep) endpoint_list)"
    by (simp add: chv_requests_ok) (simp add: chv_unfold send_simps)
  show ?thesis
    unfolding f n r using o by (simp add: vbs_success)
qed

text \<open>A server that answers 404 to everything: the status is UNHEALTHY, not FAILED, and all
  six requests were made.\<close>

theorem failed_only_on_transport_error_or_5xx_witness:
  "basic_success (fst (validateBackendService (first_ok 0 (Responded 404)) ''http://h'' start))
   \<and> overallStatus (fst (comprehensiveHostValidation
        (first_ok 0 (Responded 404)) ''http://h'' start)) = UNHEALTHY
   \<and> requests (snd (comprehensiveHostValidation
        (first_ok 0 (Responded 404)) ''http://h'' start)) =
       [''http://h'', ''http://h/'', ''http://h/health'', ''http://h/api/status'',
        ''http://h/api/health'', ''http://h/status'']"
proof -
  have a: "outcome (first_ok 0 (Responded 404) start ''http://h'') = Responded 404"
    by code_simp
  have b: "overallStatus (fst (comprehensiveHostValidation
        (first_ok 0 (Responded 404)) ''http://h'' start)) = UNHEALTHY"
    by code_simp
  have r: "requests start = []"
    by (simp add: start_def)
  from failed_only_on_transport_error_or_5xx [of "first_ok 0 (Responded 404)" "''http://h''" start]
    a b r
  show ?thesis
    by (simp add: endpoint_list_def)
qed

lemma probe_endpoint_recorded:
  "status (fst (probe_endpoint net base ep w)) = recorded (outcome (net w (base @ path ep)))"
proof (cases "outcome (net w (base @ path ep))")
  case (Responded s)
  then show ?thesis by (simp add: probe_endpoint_status)
next
  case (NoResponse c)
  then show ?thesis by (cases c) (simp_all add: probe_endpoint_status)
qed

lemma endpoint_loop_recorded:
  "map status (fst (endpoint_loop net base eps [] w)) =
     map recorded (seen net (map (\<lambda>ep. base @ path ep) eps) w)"
  by (induction eps arbitrary: w)
     (simp_all add: endpoint_loop_Cons probe_endpoint_world probe_endpoint_recorded seen_Cons
        del: endpoint_loop.simps(2) seen.simps(2))

lemma recorded_Num: "(recorded x = Num n) = (x = Responded n)"
  by (induction x rule: recorded.induct) auto

lemma recorded_Str: "(\<exists>k. recorded x = Str k) = (\<exists>c. x = NoResponse c)"
  by (induction x rule: recorded.induct) auto

section \<open>The endpoint loop\<close>

text \<open>
  Claim C8. A failed probe is data. The rejected promise of \<^verbatim>\<open>axios.get\<close> is caught in
  the loop body, which is a total function of the network: whatever the probe's outcome, the
  loop appends one entry and goes on with the next endpoint in the world the request left
  behind. So for every network and every list the loop returns, with one entry more per
  endpoint; the report of \<^verbatim>\<open>validateMultipleEndpoints\<close> covers every endpoint of the
  list, and the status of each entry is the recorded outcome of its probe.
\<close>

theorem endpoint_failure_is_data:
  "endpoint_loop net base (ep # rest) results w =
     endpoint_loop net base rest (results @ [fst (probe_endpoint net base ep w)])
       (snd (send net (base @ path ep) w))
   \<and> length (fst (endpoint_loop net base eps results w)) = length results + length eps
   \<and> take (length results) (fst (endpoint_loop net base eps results w)) = results
   \<and> map path (endpoints (fst (validateMultipleEndpoints net base w))) = map path endpoint_list
   \<and> map status (endpoints (fst (validateMultipleEndpoints net base w))) =
       map recorded (seen net (map (\<lambda>ep. base @ path ep) endpoint_list) w)
   \<and> map success (endpoints (fst (validateMultipleEndpoints net base w))) =
       map in_2xx (seen net (map (\<lambda>ep. base @ path ep) endpoint_list) w)"
proof -
  have step: "endpoint_loop net base (ep # rest) results w =
     endpoint_loop net base rest (results @ [fst (probe_endpoint net base ep w)])
       (snd (send net (base @ path ep) w))"
    using probe_endpoint_world [of net base ep w]
    by (cases "probe_endpoint net base ep w") simp
  have len: "length (fst (endpoint_loop net base eps results w)) = length results + length eps"
    using endpoint_loop_acc [of net base eps results w] by (simp add: endpoint_loop_length)
  have pre: "take (length results) (fst (endpoint_loop net base eps results w)) = results"
    using endpoint_loop_acc [of net base eps results w] by simp
  show ?thesis
    using step len pre
    by (simp add: vme_endpoints endpoint_loop_paths endpoint_loop_recorded endpoint_loop_success
        del: endpoint_loop.simps)
qed

text \<open>A server that refuses every connection: five entries, each with the error code.\<close>

theorem endpoint_failure_is_data_witness:
  "map status (endpoints (fst (validateMultipleEndpoints
      (first_ok 0 (NoResponse (Some ''ECONNREFUSED''))) ''http://h'' start))) =
     [Str ''ECONNREFUSED'', Str ''ECONNREFUSED'', Str ''ECONNREFUSED'', Str ''ECONNREFUSED'',
      Str ''ECONNREFUSED'']
   \<and> map path (endpoints (fst (validateMultipleEndpoints
      (first_ok 0 (NoResponse (Some ''ECONNREFUSED''))) ''http://h'' start))) =
     [''/'', ''/health'', ''/api/status'', ''/api/health'', ''/status'']"
proof -
  have s: "seen (first_ok 0 (NoResponse (Some ''ECONNREFUSED'')))
      (map (\<lambda>ep. ''http://h'' @ path ep) endpoint_list) start =
      [NoResponse (Some ''ECONNREFUSED''), NoResponse (Some ''ECONNREFUSED''),
       NoResponse (Some ''ECONNREFUSED''), NoResponse (Some ''ECONNREFUSED''),
       NoResponse (Some ''ECONNREFUSED'')]"
    by code_simp
  from endpoint_failure_is_data [of "first_ok 0 (NoResponse (Some ''ECONNREFUSED''))"
      "''http://h''" _ _ _ start "[]"] s
  show ?thesis
    by (simp add: endpoint_list_def del: endpoint_loop.simps)
qed

lemma vbs_status:
  "(basic_status (fst (validateBackendService net u w)) = Some n) =
     (outcome (net w u) = Responded n)"
  by (cases "outcome (net w u)") (auto simp: vbs_Responded vbs_NoResponse)

lemma vbs_status_None:
  "(basic_status (fst (validateBackendService net u w)) = None) =
     (\<exists>c. outcome (net w u) = NoResponse c)"
  by (cases "outcome (net w u)") (auto simp: vbs_Responded vbs_NoResponse)

lemma vbs_transport_error:
  "(basic_error (fst (validateBackendService net u w)) \<in>
      {Some Connection_refused, Some Connection_reset, Some Host_not_found,
       Some Request_timed_out, Some Error_connecting}) =
     (\<exists>c. outcome (net w u) = NoResponse c)"
  by (cases "outcome (net w u)") (auto simp: vbs_Responded vbs_NoResponse)

section \<open>Outcome of a probe\<close>

text \<open>
  Claim C9. A probe's outcome holds either a status code or an error kind, never both and
  never neither. In an entry of the endpoint loop the two share the field \<open>status\<close>: it
  is the number \<open>n\<close> exactly when a response with status \<open>n\<close> was received (2xx or
  not), and it is a string, the error code, exactly when no response was received. In the
  result of \<^verbatim>\<open>validateBackendService\<close> the status is \<open>n\<close> exactly when a response
  with status \<open>n\<close> was received and null exactly when none was; and the error is one of
  connection refused, connection reset, host not found, timed out and the catch-all
  "error connecting" exactly when no response was received.
\<close>

theorem status_code_xor_error_kind:
  "(status (fst (probe_endpoint net base ep w)) = Num n) =
     (outcome (net w (base @ path ep)) = Responded n)
   \<and> (\<exists>k. status (fst (probe_endpoint net base ep w)) = Str k) =
       (\<exists>c. outcome (net w (base @ path ep)) = NoResponse c)
   \<and> (\<exists>m. status (fst (probe_endpoint net base ep w)) = Num m) =
       (\<nexists>k. status (fst (probe_endpoint net base ep w)) = Str k)
   \<and> (basic_status (fst (validateBackendService net u w)) = Some n) =
       (outcome (net w u) = Responded n)
   \<and> (basic_status (fst (validateBackendService net u w)) = None) =
       (\<exists>c. outcome (net w u) = NoResponse c)
   \<and> (basic_error (fst (validateBackendService net u w)) \<in>
        {Some Connection_refused, Some Connection_reset, Some Host_not_found,
         Some Request_timed_out, Some Error_connecting}) =
       (\<exists>c. outcome (net w u) = NoResponse c)"
proof -
  have x: "(\<exists>m. s = Num m) = (\<nexists>k. s = Str k)" for s :: status_field
    by (cases s) simp_all
  show ?thesis
    using x [of "status (fst (probe_endpoint net base ep w))"]
    by (simp only: probe_endpoint_recorded recorded_Num recorded_Str vbs_status
        vbs_status_None vbs_transport_error simp_thms)
qed

text \<open>A 503 from the base URL is a status without a transport error; a reset connection is
  a transport error without a status.\<close>

theorem status_code_xor_error_kind_witness:
  "basic_status (fst (validateBackendService (first_ok 0 (Responded 503)) ''http://h'' start)) =
     Some 503
   \<and> basic_error (fst (validateBackendService (first_ok 0 (Responded 503)) ''http://h'' start)) =
     Some (Server_error 503)
   \<and> basic_status (fst (validateBackendService
        (first_ok 0 (NoResponse (Some ''ECONNRESET''))) ''http://h'' start)) = None
   \<and> basic_error (fst (validateBackendService
        (first_ok 0 (NoResponse (Some ''ECONNRESET''))) ''http://h'' start)) =
     Some Connection_reset
   \<and> status (fst (probe_endpoint (first_ok 0 (Responded 503)) ''http://h''
        \<lparr>path = ''/health'', name = ''Health Check''\<rparr> start)) = Num 503"
proof -
  have a: "outcome (first_ok 0 (Responded 503) start ''http://h'') = Responded 503"
    by code_simp
  have b: "outcome (first_ok 0 (Responded 503) start ''http://h/health'') = Responded 503"
    by code_simp
  have c: "outcome (first_ok 0 (NoResponse (Some ''ECONNRESET'')) start ''http://h'') =
      NoResponse (Some ''ECONNRESET'')"
    by code_simp
  have e1: "basic_error (fst (validateBackendService (first_ok 0 (Responded 503))
      ''http://h'' start)) = Some (Server_error 503)"
    by code_simp
  have e2: "basic_error (fst (validateBackendService
        (first_ok 0 (NoResponse (Some ''ECONNRESET''))) ''http://h'' start)) =
     Some Connection_reset"
    by code_simp
  from status_code_xor_error_kind [of "first_ok 0 (Responded 503)" "''http://h''"
      "\<lparr>path = ''/health'', name = ''Health Check''\<rparr>" start 503 "''http://h''"]
    status_code_xor_error_kind [of "first_ok 0 (NoResponse (Some ''ECONNRESET''))" "''http://h''"
      "\<lparr>path = ''/health'', name = ''Health Check''\<rparr>" start 503 "''http://h''"]
    a b c e1 e2
  show ?thesis
    by simp
qed

section \<open>One probe per endpoint, in order\<close>

text \<open>
  Claim C10. For every list of endpoints the loop requests, in the order of the list, the
  URL made of the base URL and the endpoint's path, once each and nothing else; and it
  appends one entry per endpoint, in the same order, with the endpoint's path and name.
  For \<^verbatim>\<open>validateMultipleEndpoints\<close> this gives five requests and five entries. The
  shell loop likewise requests each of its URLs once, in order.
\<close>

theorem one_probe_per_endpoint_in_order:
  "requests (snd (endpoint_loop net base eps results w)) =
     requests w @ map (\<lambda>ep. base @ path ep) eps
   \<and> map path (fst (endpoint_loop net base eps results w)) = map path results @ map path eps
   \<and> map name (fst (endpoint_loop net base eps results w)) = map name results @ map name eps
   \<and> requests (snd (validateMultipleEndpoints net base w)) =
       requests w @ map (\<lambda>ep. base @ path ep) endpoint_list
   \<and> map path (endpoints (fst (validateMultipleEndpoints net base w))) = map path endpoint_list
   \<and> map name (endpoints (fst (validateMultipleEndpoints net base w))) = map name endpoint_list
   \<and> requests (snd (count_loop net base ps c w)) =
       requests w @ map (\<lambda>p. base @ fst (read_pair p)) ps"
proof -
  have l: "endpoint_loop net base eps results w =
      (results @ fst (endpoint_loop net base eps [] w), snd (endpoint_loop net base eps [] w))"
    by (rule endpoint_loop_acc)
  have k: "count_loop net base ps c w =
      (c + fst (count_loop net base ps 0 w), snd (count_loop net base ps 0 w))"
    by (rule count_loop_acc)
  show ?thesis
    unfolding l k
    by (simp add: endpoint_loop_requests endpoint_loop_paths endpoint_loop_names vme_world
        vme_endpoints count_loop_requests)
qed

text \<open>The five requests of a run against \<^verbatim>\<open>http://h\<close>.\<close>

theorem one_probe_per_endpoint_in_order_witness:
  "requests (snd (validateMultipleEndpoints (first_ok 2 (Responded 500)) ''http://h'' start)) =
     [''http://h/'', ''http://h/health'', ''http://h/api/status'', ''http://h/api/health'',
      ''http://h/status'']
   \<and> map name (endpoints (fst (validateMultipleEndpoints
        (first_ok 2 (Responded 500)) ''http://h'' start))) =
     [''Home'', ''Health Check'', ''API Status'', ''API Health'', ''Status'']"
  using one_probe_per_endpoint_in_order [of "first_ok 2 (Responded 500)" "''http://h''"
      "[]" "[]" start "[]" 0]
  by (simp add: endpoint_list_def start_def)

end
